theory Spec2Isabelle
  imports Main "HOL-Library.Sublist"
begin

section \<open>The interactive shell: \<open>execute\<close> and \<open>main\<close>\<close>

text \<open>
  The shell is one C file with two functions, \<open>execute\<close> and \<open>main\<close>. It talks to its
  environment through library and system calls only: \<open>setvbuf\<close>, \<open>printf\<close>, \<open>fgets\<close>,
  \<open>fork\<close>, \<open>exec\<close>, \<open>perror\<close>, \<open>exit\<close> and \<open>wait\<close>. The model follows one process
  through the code. Every call the process makes is appended, with its arguments, to a
  trace; what the environment answers (the value \<open>fork\<close> returns, whether \<open>exec\<close> comes
  back, the value \<open>wait\<close> returns) is read from an environment that may depend on
  everything the process has done so far. Standard input is a finite sequence of bytes
  followed by end-of-file.
\<close>

subsection \<open>Bytes, C strings and the buffer\<close>

definition NUM :: nat where
  "NUM = 1024"

definition NUL :: char where
  "NUL = CHR 0x00"

definition NL :: char where
  "NL = CHR 0x0A"

text \<open>The bytes of the C string that starts at the beginning of a buffer.\<close>

definition c_str :: "string \<Rightarrow> string" where
  "c_str buf = takeWhile (\<lambda>c. c \<noteq> NUL) buf"

definition strlen :: "string \<Rightarrow> nat" where
  "strlen buf = length (c_str buf)"

subsection \<open>Calls, outcomes, environment, state\<close>

datatype event =
    Setvbuf_IONBF
  | Printf string
  | Fgets nat
  | Fork
  | Exec string "string list"
  | Perror string
  | Exit int
  | Wait int

datatype fault = NullDeref | OutOfBounds

text \<open>
  The ways in which the process stops running the shell's code: undefined behaviour
  (modelled as a fault), \<open>exit\<close>, or a successful \<open>exec\<close> that replaces the image.
  The source has no \<open>break\<close> and no \<open>return\<close> in \<open>main\<close>, so there is no fourth way.
\<close>

datatype halt = Fault fault | Exited int | Replaced string

record env =
  fork_ret :: "event list \<Rightarrow> int"
  exec_fails :: "event list \<Rightarrow> string \<Rightarrow> bool"
  wait_ret :: "event list \<Rightarrow> int \<Rightarrow> int"

text \<open>
  \<open>command\<close> is the storage of \<open>char command[NUM]\<close>. The array is declared inside the
  loop without an initialiser, so its contents at the start of an iteration are
  indeterminate; the model keeps whatever the previous iteration left there and takes
  the first contents as a parameter.
\<close>

record state =
  stdin :: string
  command :: string
  trace :: "event list"

definition emit :: "event \<Rightarrow> state \<Rightarrow> state" where
  "emit e st = st\<lparr>trace := trace st @ [e]\<rparr>"

subsection \<open>\<open>fgets\<close>\<close>

text \<open>
  \<open>read_line k input\<close> takes bytes from the input until \<open>k\<close> bytes are taken, a newline
  is taken, or the input ends; it returns the bytes taken and the rest.
\<close>

fun read_line :: "nat \<Rightarrow> string \<Rightarrow> string \<times> string" where
  "read_line 0 input = ([], input)"
| "read_line (Suc k) [] = ([], [])"
| "read_line (Suc k) (c # input) =
     (if c = NL then ([c], input)
      else (case read_line k input of (l, rest) \<Rightarrow> (c # l, rest)))"

text \<open>
  \<open>fgets s n stream\<close>: at end-of-file with nothing read the result is the null pointer and
  the buffer is untouched; otherwise at most \<open>n - 1\<close> bytes are stored, followed by a
  terminating zero byte, and the result is \<open>s\<close>.
\<close>

definition fgets :: "string \<Rightarrow> nat \<Rightarrow> string \<Rightarrow> (string \<times> string) option" where
  "fgets s n input =
     (if input = [] then None
      else (case read_line (n - 1) input of
              (l, rest) \<Rightarrow> Some (l @ NUL # drop (Suc (length l)) s, rest)))"

subsection \<open>\<open>execute\<close>\<close>

text \<open>
  The parameter \<open>cmd\<close> is the C string \<open>command\<close> points to. The result is \<open>Inl\<close> when
  the process stops inside \<open>execute\<close> and \<open>Inr\<close> with the returned \<open>int\<close> otherwise.
  The local \<open>status\<close> is declared and never written; the value of \<open>wait(pid)\<close> is dropped.
\<close>

definition execute :: "env \<Rightarrow> string \<Rightarrow> state \<Rightarrow> (halt \<times> state) + (int \<times> state)" where
  "execute env cmd st0 =
     (let pid = fork_ret env (trace st0);
          st1 = emit Fork st0
      in if pid = 0 then
           (let st2 = emit (Exec cmd [cmd]) st1
            in if exec_fails env (trace st1) cmd then
                 (let st3 = emit (Perror ''exec failed'') st2;
                      st4 = emit (Exit 1) st3
                  in Inl (Exited 1, st4))
               else Inl (Replaced cmd, st2))
         else if pid > 0 then
           (let w = wait_ret env (trace st1) pid;
                st2 = emit (Wait pid) st1
            in Inr (0, st2))
         else
           (let st2 = emit (Perror ''fork failed'') st1
            in Inr (0, st2)))"

subsection \<open>\<open>main\<close>\<close>

definition prompt :: string where
  "prompt = ''~ # ''"

definition banner :: string where
  "banner = ''Running Shell...'' @ [NL]"

definition echo :: "string \<Rightarrow> string" where
  "echo s = NL # '' Running command: '' @ s @ [NL]"

text \<open>
  One pass through the body of \<open>while (1)\<close>. \<open>strlen(cmd)\<close> with \<open>cmd\<close> null is a null
  dereference. \<open>strlen(cmd) - 1\<close> is unsigned arithmetic: for an empty string the index is
  the largest \<open>size_t\<close>, far outside the array.
\<close>

definition iteration :: "env \<Rightarrow> state \<Rightarrow> (halt \<times> state) + state" where
  "iteration env st0 =
     (let st1 = emit (Printf prompt) st0;
          st2 = emit (Fgets NUM) st1
      in case fgets (command st2) NUM (stdin st2) of
           None \<Rightarrow> Inl (Fault NullDeref, st2)
         | Some (buf, rest) \<Rightarrow>
             (let st3 = st2\<lparr>stdin := rest, command := buf\<rparr>;
                  n = strlen (command st3)
              in if n = 0 then Inl (Fault OutOfBounds, st3)
                 else
                   (let st4 = st3\<lparr>command := (command st3)[n - 1 := NUL]\<rparr>;
                        st5 = emit (Printf (echo (c_str (command st4)))) st4
                    in case execute env (c_str (command st5)) st5 of
                         Inl h \<Rightarrow> Inl h
                       | Inr (r, st6) \<Rightarrow> Inr st6)))"

lemma read_line_length: "read_line k input = (l, rest) \<Longrightarrow> input = l @ rest \<and> length l \<le> k"
  by (induction k input arbitrary: l rest rule: read_line.induct)
     (auto split: if_splits prod.splits)

lemma read_line_nonempty:
  "read_line (Suc k) (c # input) = (l, rest) \<Longrightarrow> l \<noteq> []"
  by (auto split: if_splits prod.splits)

lemma fgets_consumes:
  assumes "fgets s NUM input = Some (buf, rest)"
  shows "length rest < length input"
proof -
  from assms obtain c cs where input: "input = c # cs"
    by (cases input) (auto simp: fgets_def)
  from assms input obtain l where rl: "read_line (Suc 1022) (c # cs) = (l, rest)"
    by (auto simp: fgets_def NUM_def split: prod.splits)
  from read_line_nonempty [OF rl] read_line_length [OF rl] input
  show ?thesis by (cases l) auto
qed

lemma trace_emit [simp]: "trace (emit e st) = trace st @ [e]"
  and stdin_emit [simp]: "stdin (emit e st) = stdin st"
  and command_emit [simp]: "command (emit e st) = command st"
  by (simp_all add: emit_def)

lemma execute_stdin: "execute env cmd st = Inr (r, st') \<Longrightarrow> stdin st' = stdin st"
  by (auto simp: execute_def Let_def split: if_splits)

lemma iteration_consumes:
  assumes "iteration env st = Inr st'"
  shows "length (stdin st') < length (stdin st)"
  using assms
  by (auto simp: iteration_def Let_def
           split: option.splits prod.splits if_splits sum.splits
           dest!: fgets_consumes execute_stdin)

function main_loop :: "env \<Rightarrow> state \<Rightarrow> halt \<times> event list" where
  "main_loop env st =
     (case iteration env st of
        Inl (h, st') \<Rightarrow> (h, trace st')
      | Inr st' \<Rightarrow> main_loop env st')"
  by pat_completeness auto
termination
  by (relation "measure (\<lambda>(env, st). length (stdin st))") (auto dest: iteration_consumes)

declare main_loop.simps [simp del]

lemma main_loop_halt:
  "iteration env st = Inl (h, st') \<Longrightarrow> main_loop env st = (h, trace st')"
  by (simp add: main_loop.simps)

lemma main_loop_continue:
  "iteration env st = Inr st' \<Longrightarrow> main_loop env st = main_loop env st'"
  by (simp add: main_loop.simps)

text \<open>
  \<open>main\<close> on the bytes of standard input; \<open>garbage\<close> is the indeterminate first content of
  the array.
\<close>

definition main :: "env \<Rightarrow> string \<Rightarrow> string \<Rightarrow> halt \<times> event list" where
  "main env input garbage =
     (let st0 = \<lparr>stdin = input, command = garbage, trace = []\<rparr>;
          st1 = emit Setvbuf_IONBF st0;
          st2 = emit (Printf banner) st1
      in main_loop env st2)"

subsection \<open>Children and \<open>wait\<close>\<close>

text \<open>
  Whether a child is still running is nothing the shell computes; it is the system's
  business and a parameter here: \<open>running h p\<close> says that child \<open>p\<close> has not terminated
  at the moment at which the process has completed exactly the calls \<open>h\<close>.
\<close>



subsection \<open>Facts about the buffer and one iteration\<close>

lemma c_str_terminated [simp]: "c_str (l @ NUL # t) = c_str l"
  by (simp add: c_str_def takeWhile_tail)

lemma c_str_strip:
  assumes "c_str buf \<noteq> []"
  shows "c_str (buf[strlen buf - 1 := NUL]) = butlast (c_str buf)"
proof -
  let ?P = "\<lambda>c. c \<noteq> NUL"
  let ?tw = "takeWhile ?P buf"
  from assms have ne: "?tw \<noteq> []" by (simp add: c_str_def)
  have buf: "buf = butlast ?tw @ last ?tw # dropWhile ?P buf"
    using ne by (metis append_butlast_last_id append.assoc append_Cons append_Nil takeWhile_dropWhile_id)
  have len: "strlen buf - 1 = length (butlast ?tw)"
    by (simp add: strlen_def c_str_def)
  have "buf[strlen buf - 1 := NUL] = butlast ?tw @ NUL # dropWhile ?P buf"
    by (subst buf, subst len) (simp add: list_update_append)
  moreover have "\<forall>x \<in> set (butlast ?tw). ?P x"
    by (auto dest: in_set_butlastD set_takeWhileD)
  ultimately show ?thesis
    by (simp add: c_str_def takeWhile_tail)
qed

lemma strlen_terminated [simp]: "strlen (l @ NUL # t) = strlen l"
  by (simp add: strlen_def)

lemma strip_line:
  "NUL \<notin> set body \<Longrightarrow> butlast (c_str (body @ [NL])) = body"
proof -
  assume "NUL \<notin> set body"
  then have "\<forall>x \<in> set (body @ [NL]). x \<noteq> NUL"
    by (auto simp: NL_def NUL_def)
  then have "c_str (body @ [NL]) = body @ [NL]"
    unfolding c_str_def by (simp only: takeWhile_eq_all_conv)
  then show ?thesis by simp
qed

text \<open>
  \<open>fgets\<close> stays inside the array and leaves a terminating zero in it, so the reads of
  the C string that follow stay inside the array too.
\<close>

lemma fgets_in_bounds:
  assumes "length s = NUM" and "fgets s NUM input = Some (buf, rest)"
  shows "length buf = NUM \<and> NUL \<in> set buf \<and> strlen buf < NUM"
proof -
  from assms(2) obtain l where rl: "read_line (NUM - 1) input = (l, rest)"
    and buf: "buf = l @ NUL # drop (Suc (length l)) s"
    by (auto simp: fgets_def split: if_splits prod.splits)
  from read_line_length [OF rl] have len: "length l \<le> NUM - 1" by simp
  have "strlen buf \<le> length l"
    unfolding buf by (simp add: strlen_def c_str_def takeWhile_tail length_takeWhile_le)
  with len assms(1) show ?thesis
    unfolding buf by (auto simp: NUM_def)
qed

lemma iteration_eof:
  "stdin st = [] \<Longrightarrow> iteration env st = Inl (Fault NullDeref, st\<lparr>trace := trace st @ [Printf prompt, Fgets NUM]\<rparr>)"
  by (simp add: iteration_def fgets_def emit_def)

lemma iteration_line:
  assumes "stdin st \<noteq> []" and "read_line (NUM - 1) (stdin st) = (l, rest)" and "c_str l \<noteq> []"
  shows "iteration env st =
           (case execute env (butlast (c_str l))
                   (st\<lparr>stdin := rest,
                       command := (l @ NUL # drop (Suc (length l)) (command st))[strlen l - 1 := NUL],
                       trace := trace st @ [Printf prompt, Fgets NUM, Printf (echo (butlast (c_str l)))]\<rparr>) of
              Inl h \<Rightarrow> Inl h
            | Inr (r, st') \<Rightarrow> Inr st')"
proof -
  let ?buf = "l @ NUL # drop (Suc (length l)) (command st)"
  have fg: "fgets (command st) NUM (stdin st) = Some (?buf, rest)"
    using assms(1,2) by (simp add: fgets_def)
  have n: "strlen ?buf = strlen l" "strlen l \<noteq> 0"
    using assms(3) by (simp_all add: strlen_def)
  have cs: "c_str (?buf[strlen l - 1 := NUL]) = butlast (c_str l)"
    using c_str_strip [of ?buf] assms(3) by simp
  show ?thesis
    using cs by (simp add: iteration_def fg n Let_def emit_def)
qed

lemma execute_trace: 
  "prefix (trace st @ [Fork]) (case execute env cmd st of Inl (h, st') \<Rightarrow> trace st' | Inr (r, st') \<Rightarrow> trace st')"
  by (simp add: execute_def Let_def)

lemma iteration_prompt_first:
  "prefix (trace st @ [Printf prompt])
     (case iteration env st of Inl (h, st') \<Rightarrow> trace st' | Inr st' \<Rightarrow> trace st')"
proof (cases "fgets (command st) NUM (stdin st)")
  case None
  then show ?thesis by (simp add: iteration_def Let_def)
next
  case (Some a)
  obtain buf rest where a: "a = (buf, rest)" by (cases a)
  show ?thesis
  proof (cases "strlen buf = 0")
    case True
    with Some a show ?thesis by (simp add: iteration_def Let_def)
  next
    case False
    let ?st5 = "emit (Printf (echo (c_str (buf[strlen buf - 1 := NUL]))))
                  (emit (Fgets NUM) (emit (Printf prompt) st)
                     \<lparr>stdin := rest, command := buf[strlen buf - 1 := NUL]\<rparr>)"
    have "prefix (trace st @ [Printf prompt]) (trace ?st5 @ [Fork])"
      by (simp add: emit_def)
    from prefix_order.trans [OF this execute_trace [of ?st5 env "c_str (command ?st5)"]]
    show ?thesis using Some a False
      by (auto simp: iteration_def Let_def split: sum.splits)
  qed
qed

lemma main_loop_prompt_first:
  "prefix (trace st @ [Printf prompt]) (snd (main_loop env st))"
proof (induction env st rule: main_loop.induct)
  case (1 env st)
  show ?case
  proof (cases "iteration env st")
    case (Inl a)
    then show ?thesis using iteration_prompt_first [of st env]
      by (cases a) (simp add: main_loop_halt)
  next
    case (Inr st')
    from iteration_prompt_first [of st env] Inr
    have "prefix (trace st @ [Printf prompt]) (trace st')" by simp
    also have "prefix (trace st') (trace st' @ [Printf prompt])" by simp
    also note "1.IH" [OF Inr]
    finally show ?thesis by (simp add: main_loop_continue [OF Inr])
  qed
qed

lemma read_line_terminated:
  "NL \<notin> set body \<Longrightarrow> length body < k \<Longrightarrow> read_line k (body @ NL # later) = (body @ [NL], later)"
proof (induction body arbitrary: k)
  case Nil
  then show ?case by (cases k) auto
next
  case (Cons c body)
  then show ?case by (cases k) auto
qed

lemma read_line_full:
  "NL \<notin> set l \<Longrightarrow> read_line (length l) (l @ later) = (l, later)"
  by (induction l) auto

lemma read_line_last:
  "NL \<notin> set l \<Longrightarrow> length l \<le> k \<Longrightarrow> read_line k l = (l, [])"
proof (induction l arbitrary: k)
  case Nil
  then show ?case by (cases k) auto
next
  case (Cons c l)
  then show ?case by (cases k) auto
qed

lemma c_str_no_NUL: "NUL \<notin> set l \<Longrightarrow> c_str l = l"
  by (auto simp: c_str_def)

lemma iteration_parent:
  fixes env st l rest
  defines "c \<equiv> butlast (c_str l)"
  defines "T \<equiv> trace st @ [Printf prompt, Fgets NUM, Printf (echo c)]"
  assumes "stdin st \<noteq> []" and "read_line (NUM - 1) (stdin st) = (l, rest)" and "c_str l \<noteq> []"
    and "0 < fork_ret env T"
  shows "iteration env st =
           Inr (st\<lparr>stdin := rest,
                   command := (l @ NUL # drop (Suc (length l)) (command st))[strlen l - 1 := NUL],
                   trace := T @ [Fork, Wait (fork_ret env T)]\<rparr>)"
  using assms(6) unfolding iteration_line [OF assms(3,4,5)] T_def c_def
  by (simp add: execute_def Let_def emit_def)

lemma iteration_fork_failed:
  fixes env st l rest
  defines "c \<equiv> butlast (c_str l)"
  defines "T \<equiv> trace st @ [Printf prompt, Fgets NUM, Printf (echo c)]"
  assumes "stdin st \<noteq> []" and "read_line (NUM - 1) (stdin st) = (l, rest)" and "c_str l \<noteq> []"
    and "fork_ret env T < 0"
  shows "iteration env st =
           Inr (st\<lparr>stdin := rest,
                   command := (l @ NUL # drop (Suc (length l)) (command st))[strlen l - 1 := NUL],
                   trace := T @ [Fork, Perror ''fork failed'']\<rparr>)"
  using assms(6) unfolding iteration_line [OF assms(3,4,5)] T_def c_def
  by (simp add: execute_def Let_def emit_def)

lemma iteration_child:
  fixes env st l rest
  defines "c \<equiv> butlast (c_str l)"
  defines "T \<equiv> trace st @ [Printf prompt, Fgets NUM, Printf (echo c)]"
  assumes "stdin st \<noteq> []" and "read_line (NUM - 1) (stdin st) = (l, rest)" and "c_str l \<noteq> []"
    and "fork_ret env T = 0"
  shows "iteration env st =
           Inl (if exec_fails env (T @ [Fork]) c
                then (Exited 1,
                      st\<lparr>stdin := rest,
                         command := (l @ NUL # drop (Suc (length l)) (command st))[strlen l - 1 := NUL],
                         trace := T @ [Fork, Exec c [c], Perror ''exec failed'', Exit 1]\<rparr>)
                else (Replaced c,
                      st\<lparr>stdin := rest,
                         command := (l @ NUL # drop (Suc (length l)) (command st))[strlen l - 1 := NUL],
                         trace := T @ [Fork, Exec c [c]]\<rparr>))"
  using assms(6) unfolding iteration_line [OF assms(3,4,5)] T_def c_def
  by (simp add: execute_def Let_def emit_def)

subsection \<open>What the loop does not depend on\<close>

lemma execute_wait_ret [simp]: "execute (env\<lparr>wait_ret := w\<rparr>) cmd st = execute env cmd st"
  by (simp add: execute_def Let_def)

lemma iteration_wait_ret [simp]: "iteration (env\<lparr>wait_ret := w\<rparr>) st = iteration env st"
  by (simp add: iteration_def Let_def split: option.splits prod.splits)

lemma main_loop_wait_ret: "main_loop (env\<lparr>wait_ret := w\<rparr>) st = main_loop env st"
proof (induction env st rule: main_loop.induct)
  case (1 env st)
  show ?case
  proof (cases "iteration env st")
    case (Inl a)
    then show ?thesis by (cases a) (simp add: main_loop_halt)
  next
    case (Inr st')
    then have "iteration (env\<lparr>wait_ret := w\<rparr>) st = Inr st'" by simp
    from main_loop_continue [OF this] main_loop_continue [OF Inr] "1.IH" [OF Inr]
    show ?thesis by simp
  qed
qed

lemma execute_returns_0: "execute env cmd st = Inr (r, st') \<Longrightarrow> r = 0"
  by (auto simp: execute_def Let_def split: if_splits)

lemma iteration_command:
  "(case iteration env (st\<lparr>command := b\<rparr>) of Inl (h, s) \<Rightarrow> Inl (h, trace s) | Inr s \<Rightarrow> Inr (stdin s, trace s))
   = (case iteration env st of Inl (h, s) \<Rightarrow> Inl (h, trace s) | Inr s \<Rightarrow> Inr (stdin s, trace s))"
proof (cases "stdin st = []")
  case True
  then show ?thesis by (simp add: iteration_eof)
next
  case False
  obtain l rest where rl: "read_line (NUM - 1) (stdin st) = (l, rest)"
    by (cases "read_line (NUM - 1) (stdin st)")
  show ?thesis
  proof (cases "c_str l = []")
    case True
    then show ?thesis using False rl
      by (simp add: iteration_def fgets_def Let_def strlen_def emit_def)
  next
    case ne: False
    have a: "stdin (st\<lparr>command := b\<rparr>) \<noteq> []" 
      and b: "read_line (NUM - 1) (stdin (st\<lparr>command := b\<rparr>)) = (l, rest)"
      using False rl by simp_all
    show ?thesis
      unfolding iteration_line [OF False rl ne] iteration_line [OF a b ne]
      by (simp add: execute_def Let_def emit_def)
  qed
qed


lemma main_loop_command: "main_loop env (st\<lparr>command := b\<rparr>) = main_loop env st"
proof (induction env st arbitrary: b rule: main_loop.induct)
  case (1 env st)
  show ?case
  proof (cases "iteration env st")
    case (Inl a)
    obtain h s where a: "a = (h, s)" by (cases a)
    from iteration_command [where env = env and st = st and b = b] Inl a
    obtain s' where "iteration env (st\<lparr>command := b\<rparr>) = Inl (h, s')" "trace s' = trace s"
      by (auto split: sum.splits)
    with Inl a show ?thesis by (simp add: main_loop_halt)
  next
    case (Inr s)
    from iteration_command [where env = env and st = st and b = b] Inr
    obtain s' where s': "iteration env (st\<lparr>command := b\<rparr>) = Inr s'" "trace s' = trace s" "stdin s' = stdin s"
      by (auto split: sum.splits)
    then have "s' = s\<lparr>command := command s'\<rparr>" by simp
    with "1.IH" [OF Inr, of "command s'"] have "main_loop env s' = main_loop env s" by simp
    with Inr s' show ?thesis by (simp add: main_loop_continue)
  qed
qed

lemma no_banner [simp]: "prompt \<noteq> banner" "echo c \<noteq> banner"
  by (simp_all add: prompt_def banner_def echo_def NL_def)

lemma iteration_no_banner:
  "filter (\<lambda>e. e = Printf banner) (case iteration env st of Inl (h, s) \<Rightarrow> trace s | Inr s \<Rightarrow> trace s)
   = filter (\<lambda>e. e = Printf banner) (trace st)"
proof (cases "stdin st = []")
  case True
  then show ?thesis by (simp add: iteration_eof)
next
  case False
  obtain l rest where rl: "read_line (NUM - 1) (stdin st) = (l, rest)"
    by (cases "read_line (NUM - 1) (stdin st)")
  show ?thesis
  proof (cases "c_str l = []")
    case True
    then show ?thesis using False rl
      by (simp add: iteration_def fgets_def Let_def strlen_def emit_def)
  next
    case ne: False
    show ?thesis
      unfolding iteration_line [OF False rl ne]
      by (simp add: execute_def Let_def emit_def)
  qed
qed

lemma main_loop_no_banner:
  "filter (\<lambda>e. e = Printf banner) (snd (main_loop env st)) = filter (\<lambda>e. e = Printf banner) (trace st)"
proof (induction env st rule: main_loop.induct)
  case (1 env st)
  show ?case
  proof (cases "iteration env st")
    case (Inl a)
    then show ?thesis using iteration_no_banner [of env st]
      by (cases a) (simp add: main_loop_halt)
  next
    case (Inr s)
    with "1.IH" [OF Inr] iteration_no_banner [of env st] show ?thesis
      by (simp add: main_loop_continue)
  qed
qed

subsection \<open>Whole runs\<close>

lemma main_loop_line_prefix:
  assumes "stdin st \<noteq> []" and "read_line (NUM - 1) (stdin st) = (l, rest)" and "c_str l \<noteq> []"
  shows "prefix (trace st @ [Printf prompt, Fgets NUM, Printf (echo (butlast (c_str l))), Fork])
           (snd (main_loop env st))"
proof -
  let ?mid = "st\<lparr>stdin := rest,
                  command := (l @ NUL # drop (Suc (length l)) (command st))[strlen l - 1 := NUL],
                  trace := trace st @ [Printf prompt, Fgets NUM, Printf (echo (butlast (c_str l)))]\<rparr>"
  let ?c = "butlast (c_str l)"
  note it = iteration_line [OF assms, of env]
  show ?thesis
  proof (cases "execute env ?c ?mid")
    case (Inl a)
    then show ?thesis using it execute_trace [of ?mid env ?c]
      by (cases a) (simp add: main_loop_halt)
  next
    case (Inr a)
    obtain r s where a: "a = (r, s)" by (cases a)
    from Inr a execute_trace [of ?mid env ?c]
    have "prefix (trace ?mid @ [Fork]) (trace s)" by simp
    also have "prefix (trace s) (trace s @ [Printf prompt])" by simp
    also note main_loop_prompt_first [of s env]
    finally show ?thesis using it Inr a by (simp add: main_loop_continue)
  qed
qed

lemma main_loop_eof:
  "stdin st = [] \<Longrightarrow> main_loop env st = (Fault NullDeref, trace st @ [Printf prompt, Fgets NUM])"
  by (simp add: iteration_eof main_loop_halt)

lemma main_loop_parent:
  fixes env st l rest
  defines "c \<equiv> butlast (c_str l)"
  defines "T \<equiv> trace st @ [Printf prompt, Fgets NUM, Printf (echo c)]"
  assumes "stdin st \<noteq> []" and "read_line (NUM - 1) (stdin st) = (l, rest)" and "c_str l \<noteq> []"
    and "0 < fork_ret env T"
  shows "main_loop env st =
           main_loop env (st\<lparr>stdin := rest, command := [], trace := T @ [Fork, Wait (fork_ret env T)]\<rparr>)"
proof -
  let ?st' = "st\<lparr>stdin := rest,
                 command := (l @ NUL # drop (Suc (length l)) (command st))[strlen l - 1 := NUL],
                 trace := T @ [Fork, Wait (fork_ret env T)]\<rparr>"
  have "iteration env st = Inr ?st'"
    using iteration_parent [OF assms(3,4,5)] assms(6) unfolding T_def c_def by simp
  then have "main_loop env st = main_loop env ?st'" by (rule main_loop_continue)
  also have "\<dots> = main_loop env (?st'\<lparr>command := []\<rparr>)"
    by (rule main_loop_command [symmetric])
  also have "?st'\<lparr>command := []\<rparr> =
               st\<lparr>stdin := rest, command := [], trace := T @ [Fork, Wait (fork_ret env T)]\<rparr>"
    by (cases st) simp
  finally show ?thesis .
qed


text \<open>
  A process for which \<open>fork\<close> never returns 0 stays in the loop until the input ends,
  and its run then ends in a fault.
\<close>

lemma execute_parent_or_failed:
  "fork_ret env (trace st) \<noteq> 0 \<Longrightarrow> \<exists>st'. execute env cmd st = Inr (0, st')"
  by (simp add: execute_def Let_def)

lemma iteration_parent_outcome:
  assumes "\<forall>tr. fork_ret env tr \<noteq> 0"
  shows "(\<exists>f st'. iteration env st = Inl (Fault f, st')) \<or> (\<exists>st'. iteration env st = Inr st')"
proof (cases "fgets (command st) NUM (stdin st)")
  case None
  then show ?thesis by (simp add: iteration_def Let_def)
next
  case (Some a)
  obtain buf rest where a: "a = (buf, rest)" by (cases a)
  show ?thesis
  proof (cases "strlen buf = 0")
    case True
    with Some a show ?thesis by (simp add: iteration_def Let_def)
  next
    case False
    let ?st5 = "emit (Printf (echo (c_str (buf[strlen buf - 1 := NUL]))))
                  (emit (Fgets NUM) (emit (Printf prompt) st)
                     \<lparr>stdin := rest, command := buf[strlen buf - 1 := NUL]\<rparr>)"
    from assms have "fork_ret env (trace ?st5) \<noteq> 0" by blast
    from execute_parent_or_failed [OF this, of "c_str (command ?st5)"]
    show ?thesis using Some a False
      by (auto simp: iteration_def Let_def)
  qed
qed

lemma main_loop_parent_faults:
  assumes "\<forall>tr. fork_ret env tr \<noteq> 0"
  shows "\<exists>f tr. main_loop env st = (Fault f, tr)"
  using assms
proof (induction env st rule: main_loop.induct)
  case (1 env st)
  from iteration_parent_outcome [OF "1.prems", of st]
  show ?case
  proof
    assume "\<exists>f st'. iteration env st = Inl (Fault f, st')"
    then show ?thesis by (auto simp: main_loop_halt)
  next
    assume "\<exists>st'. iteration env st = Inr st'"
    then obtain st' where it: "iteration env st = Inr st'" by blast
    from "1.IH" [OF it "1.prems"] show ?thesis
      by (simp add: main_loop_continue [OF it])
  qed
qed

lemma butlast_replicate_Suc: "butlast (replicate (Suc n) x) = replicate n x"
proof -
  have "replicate (Suc n) x = replicate n x @ [x]"
    by (induction n) simp_all
  then show ?thesis by (simp only: butlast_snoc)
qed

section \<open>Properties of the shell\<close>

subsection \<open>Waiting for the child\<close>

text \<open>
  C2, what the code does in the parent. When \<open>fork\<close> returns a positive identifier,
  \<open>execute\<close> calls \<open>wait\<close> with exactly that identifier as its one argument, as its
  next and last call, and then returns 0. The value of the call is not used: with any
  other value in its place the result of \<open>execute\<close> is the same. (The local \<open>status\<close>
  of the source, declared just before the call, occurs in no statement there, which is
  why the model of \<open>execute\<close> has no place for it.)
\<close>

theorem execute_parent_waits:
  assumes "0 < fork_ret env (trace st)"
  shows "execute env cmd st =
           Inr (0, st\<lparr>trace := trace st @ [Fork, Wait (fork_ret env (trace st))]\<rparr>)
         \<and> execute (env\<lparr>wait_ret := w\<rparr>) cmd st = execute env cmd st"
  using assms by (simp add: execute_def Let_def emit_def)

theorem execute_parent_waits_witness:
  "0 < fork_ret \<lparr>fork_ret = (\<lambda>_. 7), exec_fails = (\<lambda>_ _. False), wait_ret = (\<lambda>_ _. 0)\<rparr> []
   \<and> execute \<lparr>fork_ret = (\<lambda>_. 7), exec_fails = (\<lambda>_ _. False), wait_ret = (\<lambda>_ _. 0)\<rparr>
        ''/bin/true'' \<lparr>stdin = [], command = [], trace = []\<rparr>
      = Inr (0, \<lparr>stdin = [], command = [], trace = [Fork, Wait 7]\<rparr>)
   \<and> execute \<lparr>fork_ret = (\<lambda>_. 7), exec_fails = (\<lambda>_ _. False), wait_ret = (\<lambda>_ _. 1)\<rparr>
        ''/bin/true'' \<lparr>stdin = [], command = [], trace = []\<rparr>
      = Inr (0, \<lparr>stdin = [], command = [], trace = [Fork, Wait 7]\<rparr>)"
  using execute_parent_waits
          [of "\<lparr>fork_ret = (\<lambda>_. 7), exec_fails = (\<lambda>_ _. False), wait_ret = (\<lambda>_ _. 0)\<rparr>"
              "\<lparr>stdin = [], command = [], trace = []\<rparr>" "''/bin/true''" "\<lambda>_ _. 1"]
  by simp

subsection \<open>The child\<close>

text \<open>
  C4. Take any pass through the loop that reads a line \<open>l\<close> (so the command is
  \<open>butlast (c_str l)\<close>) in a process for which \<open>fork\<close> returns 0, the child, and in
  which \<open>exec\<close> comes back. Then the run of that process is over at the end of this
  pass: after \<open>exec\<close> it calls \<open>perror\<close> with the text \<open>exec failed\<close>, then \<open>exit(1)\<close>,
  and the process ends with status 1. No further call follows; in particular the child
  prints no prompt and reads no input.
\<close>

theorem exec_failure_exits_child:
  fixes env st l rest
  defines "c \<equiv> butlast (c_str l)"
  defines "T \<equiv> trace st @ [Printf prompt, Fgets NUM, Printf (echo c)]"
  assumes "stdin st \<noteq> []" and "read_line (NUM - 1) (stdin st) = (l, rest)" and "c_str l \<noteq> []"
    and "fork_ret env T = 0" and "exec_fails env (T @ [Fork]) c"
  shows "main_loop env st = (Exited 1, T @ [Fork, Exec c [c], Perror ''exec failed'', Exit 1])"
proof -
  from assms(6,7) have "iteration env st =
      Inl (Exited 1,
           st\<lparr>stdin := rest,
              command := (l @ NUL # drop (Suc (length l)) (command st))[strlen l - 1 := NUL],
              trace := T @ [Fork, Exec c [c], Perror ''exec failed'', Exit 1]\<rparr>)"
    unfolding T_def c_def by (simp add: iteration_child [OF assms(3,4,5)])
  then show ?thesis by (simp add: main_loop_halt)
qed

theorem exec_failure_exits_child_witness:
  "stdin \<lparr>stdin = ''ls -l'' @ [NL], command = [], trace = []\<rparr> \<noteq> []
   \<and> read_line (NUM - 1) (stdin \<lparr>stdin = ''ls -l'' @ [NL], command = [], trace = []\<rparr>) = (''ls -l'' @ [NL], [])
   \<and> c_str (''ls -l'' @ [NL]) \<noteq> []
   \<and> main_loop \<lparr>fork_ret = (\<lambda>_. 0), exec_fails = (\<lambda>_ _. True), wait_ret = (\<lambda>_ _. 0)\<rparr>
        \<lparr>stdin = ''ls -l'' @ [NL], command = [], trace = []\<rparr>
       = (Exited 1, [Printf prompt, Fgets NUM, Printf (echo ''ls -l''), Fork,
                     Exec ''ls -l'' [''ls -l''], Perror ''exec failed'', Exit 1])"
proof -
  let ?st = "\<lparr>stdin = ''ls -l'' @ [NL], command = [], trace = []\<rparr>"
  let ?env = "\<lparr>fork_ret = (\<lambda>_. 0), exec_fails = (\<lambda>_ _. True), wait_ret = (\<lambda>_ _. 0)\<rparr>"
  have h1: "stdin ?st \<noteq> []" by simp
  have h2: "read_line (NUM - 1) (stdin ?st) = (''ls -l'' @ [NL], [])"
    using read_line_terminated [of "''ls -l''" 1023 "[]"] by (simp add: NUM_def NL_def)
  have cs: "c_str (''ls -l'' @ [NL]) = ''ls -l'' @ [NL]"
    by (rule c_str_no_NUL) (simp add: NUL_def NL_def)
  then have h3: "c_str (''ls -l'' @ [NL]) \<noteq> []" by simp
  from exec_failure_exits_child [of ?st "''ls -l'' @ [NL]" "[]" ?env, OF h1 h2 h3] h1 h2 h3 cs
  show ?thesis by simp
qed

text \<open>
  C7. In the child, \<open>execute\<close> hands its argument to \<open>exec\<close> as it is: the path is the
  whole string, the argument list is that same string alone (the call ends the list with
  a null pointer right after it). This holds for every string, with or without blanks;
  nothing is split. The only other calls are the \<open>fork\<close> before and, when \<open>exec\<close> comes
  back, \<open>perror\<close> and \<open>exit\<close>.
\<close>

theorem execute_passes_whole_line:
  assumes "fork_ret env (trace st) = 0"
  shows "execute env cmd st =
           Inl (if exec_fails env (trace st @ [Fork]) cmd
                then (Exited 1, st\<lparr>trace := trace st @ [Fork, Exec cmd [cmd], Perror ''exec failed'', Exit 1]\<rparr>)
                else (Replaced cmd, st\<lparr>trace := trace st @ [Fork, Exec cmd [cmd]]\<rparr>))"
  using assms by (simp add: execute_def Let_def emit_def)

theorem execute_passes_whole_line_witness:
  "fork_ret \<lparr>fork_ret = (\<lambda>_. 0), exec_fails = (\<lambda>_ c. c \<noteq> ''/bin/ls''), wait_ret = (\<lambda>_ _. 0)\<rparr> [] = 0
   \<and> execute \<lparr>fork_ret = (\<lambda>_. 0), exec_fails = (\<lambda>_ c. c \<noteq> ''/bin/ls''), wait_ret = (\<lambda>_ _. 0)\<rparr>
        ''/bin/ls -l /tmp'' \<lparr>stdin = [], command = [], trace = []\<rparr>
      = Inl (Exited 1, \<lparr>stdin = [], command = [],
               trace = [Fork, Exec ''/bin/ls -l /tmp'' [''/bin/ls -l /tmp''], Perror ''exec failed'', Exit 1]\<rparr>)"
  using execute_passes_whole_line
          [of "\<lparr>fork_ret = (\<lambda>_. 0), exec_fails = (\<lambda>_ c. c \<noteq> ''/bin/ls''), wait_ret = (\<lambda>_ _. 0)\<rparr>"
              "\<lparr>stdin = [], command = [], trace = []\<rparr>" "''/bin/ls -l /tmp''"]
  by simp

subsection \<open>The order of calls in the parent\<close>




text \<open>
  C6. Take any pass through the loop that reads a line and in which \<open>fork\<close> returns a
  negative value. The pass calls \<open>perror\<close> with the text \<open>fork failed\<close> right after
  \<open>fork\<close>, makes no \<open>wait\<close> and no \<open>exec\<close> call, and ends normally: the input is
  advanced past the line that was read, and the loop goes on, so that the next call in
  every run is the next prompt.
\<close>

theorem fork_failure_is_skipped:
  fixes env st l rest
  defines "c \<equiv> butlast (c_str l)"
  defines "T \<equiv> trace st @ [Printf prompt, Fgets NUM, Printf (echo c)]"
  assumes "stdin st \<noteq> []" and "read_line (NUM - 1) (stdin st) = (l, rest)" and "c_str l \<noteq> []"
    and "fork_ret env T < 0"
  shows "(\<exists>buf. iteration env st =
            Inr (st\<lparr>stdin := rest, command := buf, trace := T @ [Fork, Perror ''fork failed'']\<rparr>))
         \<and> prefix (T @ [Fork, Perror ''fork failed'', Printf prompt]) (snd (main_loop env st))"
proof -
  let ?st' = "st\<lparr>stdin := rest,
                 command := (l @ NUL # drop (Suc (length l)) (command st))[strlen l - 1 := NUL],
                 trace := T @ [Fork, Perror ''fork failed'']\<rparr>"
  have it: "iteration env st = Inr ?st'"
    using iteration_fork_failed [OF assms(3,4,5)] assms(6) unfolding T_def c_def by simp
  then have "main_loop env st = main_loop env ?st'" by (rule main_loop_continue)
  with main_loop_prompt_first [of ?st' env] it show ?thesis by auto
qed

theorem fork_failure_is_skipped_witness:
  "stdin \<lparr>stdin = ''/bin/true'' @ [NL], command = [], trace = []\<rparr> \<noteq> []
   \<and> read_line (NUM - 1) (stdin \<lparr>stdin = ''/bin/true'' @ [NL], command = [], trace = []\<rparr>)
       = (''/bin/true'' @ [NL], [])
   \<and> c_str (''/bin/true'' @ [NL]) \<noteq> []
   \<and> fork_ret \<lparr>fork_ret = (\<lambda>_. - 1), exec_fails = (\<lambda>_ _. False), wait_ret = (\<lambda>_ _. 0)\<rparr>
           [Printf prompt, Fgets NUM, Printf (echo ''/bin/true'')] < 0
   \<and> iteration \<lparr>fork_ret = (\<lambda>_. - 1), exec_fails = (\<lambda>_ _. False), wait_ret = (\<lambda>_ _. 0)\<rparr>
        \<lparr>stdin = ''/bin/true'' @ [NL], command = [], trace = []\<rparr>
       = Inr \<lparr>stdin = [], command = ''/bin/true'' @ [NUL, NUL],
              trace = [Printf prompt, Fgets NUM, Printf (echo ''/bin/true''), Fork, Perror ''fork failed'']\<rparr>
   \<and> prefix [Printf prompt, Fgets NUM, Printf (echo ''/bin/true''), Fork, Perror ''fork failed'',
              Printf prompt]
        (snd (main_loop \<lparr>fork_ret = (\<lambda>_. - 1), exec_fails = (\<lambda>_ _. False), wait_ret = (\<lambda>_ _. 0)\<rparr>
                \<lparr>stdin = ''/bin/true'' @ [NL], command = [], trace = []\<rparr>))"
proof -
  let ?st = "\<lparr>stdin = ''/bin/true'' @ [NL], command = [], trace = []\<rparr>"
  let ?env = "\<lparr>fork_ret = (\<lambda>_. - 1), exec_fails = (\<lambda>_ _. False), wait_ret = (\<lambda>_ _. 0)\<rparr>"
  have h1: "stdin ?st \<noteq> []" by simp
  have h2: "read_line (NUM - 1) (stdin ?st) = (''/bin/true'' @ [NL], [])"
    using read_line_terminated [of "''/bin/true''" 1023 "[]"] by (simp add: NUM_def NL_def)
  have cs: "c_str (''/bin/true'' @ [NL]) = ''/bin/true'' @ [NL]"
    by (rule c_str_no_NUL) (simp add: NUL_def NL_def)
  then have h3: "c_str (''/bin/true'' @ [NL]) \<noteq> []" by simp
  have h4: "fork_ret ?env (trace ?st @ [Printf prompt, Fgets NUM,
                 Printf (echo (butlast (c_str (''/bin/true'' @ [NL]))))]) < 0" by simp
  have it: "iteration ?env ?st = Inr \<lparr>stdin = [], command = ''/bin/true'' @ [NUL, NUL],
              trace = [Printf prompt, Fgets NUM, Printf (echo ''/bin/true''), Fork, Perror ''fork failed'']\<rparr>"
    using iteration_fork_failed [of ?st "''/bin/true'' @ [NL]" "[]" ?env, OF h1 h2 h3 h4] cs
    by (simp add: strlen_def)
  from fork_failure_is_skipped [of ?st "''/bin/true'' @ [NL]" "[]" ?env, OF h1 h2 h3 h4] h1 h2 h3 cs it
  show ?thesis by simp
qed

subsection \<open>The value of \<open>execute\<close> and the child's status\<close>

text \<open>
  C9. Whenever \<open>execute\<close> returns, it returns 0. It does return whenever \<open>fork\<close> gives
  a value other than 0, that is, after the wait for a child and after a failed \<open>fork\<close>
  alike (in the child it never returns). What \<open>wait\<close> yields, the child's status, has
  no influence: with any other value in its place \<open>execute\<close> gives the same result,
  and the whole run of the loop, every call with every argument and the way the run
  ends, is the same.
\<close>

theorem execute_always_returns_0:
  "(\<forall>r st'. execute env cmd st = Inr (r, st') \<longrightarrow> r = 0)
   \<and> (fork_ret env (trace st) \<noteq> 0 \<longrightarrow> (\<exists>st'. execute env cmd st = Inr (0, st')))
   \<and> execute (env\<lparr>wait_ret := w\<rparr>) cmd st = execute env cmd st
   \<and> main_loop (env\<lparr>wait_ret := w\<rparr>) st = main_loop env st"
proof (intro conjI)
  show "\<forall>r st'. execute env cmd st = Inr (r, st') \<longrightarrow> r = 0"
    using execute_returns_0 by blast
  show "fork_ret env (trace st) \<noteq> 0 \<longrightarrow> (\<exists>st'. execute env cmd st = Inr (0, st'))"
    by (simp add: execute_def Let_def)
  show "execute (env\<lparr>wait_ret := w\<rparr>) cmd st = execute env cmd st"
    by (rule execute_wait_ret)
  show "main_loop (env\<lparr>wait_ret := w\<rparr>) st = main_loop env st"
    by (rule main_loop_wait_ret)
qed

theorem execute_always_returns_0_witness:
  "fork_ret \<lparr>fork_ret = (\<lambda>_. 7), exec_fails = (\<lambda>_ _. False), wait_ret = (\<lambda>_ _. 0)\<rparr> [] \<noteq> 0
   \<and> execute \<lparr>fork_ret = (\<lambda>_. 7), exec_fails = (\<lambda>_ _. False), wait_ret = (\<lambda>_ _. 0)\<rparr>
        ''/bin/false'' \<lparr>stdin = ''/bin/false'' @ [NL], command = [], trace = []\<rparr>
       = Inr (0, \<lparr>stdin = ''/bin/false'' @ [NL], command = [], trace = [Fork, Wait 7]\<rparr>)
   \<and> main_loop \<lparr>fork_ret = (\<lambda>_. 7), exec_fails = (\<lambda>_ _. False), wait_ret = (\<lambda>_ _. 1)\<rparr>
        \<lparr>stdin = ''/bin/false'' @ [NL], command = [], trace = []\<rparr>
       = main_loop \<lparr>fork_ret = (\<lambda>_. 7), exec_fails = (\<lambda>_ _. False), wait_ret = (\<lambda>_ _. 0)\<rparr>
           \<lparr>stdin = ''/bin/false'' @ [NL], command = [], trace = []\<rparr>"
proof -
  let ?env = "\<lparr>fork_ret = (\<lambda>_. 7), exec_fails = (\<lambda>_ _. False), wait_ret = (\<lambda>_ _. 0)\<rparr>"
  let ?st = "\<lparr>stdin = ''/bin/false'' @ [NL], command = [], trace = []\<rparr>"
  have e: "execute ?env ''/bin/false'' ?st
             = Inr (0, \<lparr>stdin = ''/bin/false'' @ [NL], command = [], trace = [Fork, Wait 7]\<rparr>)"
    by (simp add: execute_def Let_def emit_def)
  have u: "?env\<lparr>wait_ret := \<lambda>_ _. 1\<rparr>
             = \<lparr>fork_ret = (\<lambda>_. 7), exec_fails = (\<lambda>_ _. False), wait_ret = (\<lambda>_ _. 1)\<rparr>"
    by simp
  from execute_always_returns_0 [of ?env "''/bin/false''" ?st "\<lambda>_ _. 1"]
  have "main_loop (?env\<lparr>wait_ret := \<lambda>_ _. 1\<rparr>) ?st = main_loop ?env ?st"
    by blast
  then show ?thesis
    unfolding u using e by simp
qed

subsection \<open>The buffer\<close>

text \<open>
  C8. The run of the loop from any state is the same whatever bytes the array
  \<open>command\<close> holds at that point, be they left by an earlier, longer command or never
  written at all: every call with every argument, the echo and the \<open>exec\<close> call among
  them, is unchanged. More precisely, in a pass that reads the bytes \<open>l\<close> from the input
  (the input is \<open>l\<close> followed by the rest), the string that is echoed and handed to
  \<open>execute\<close> is \<open>butlast (c_str l)\<close>, a prefix of \<open>l\<close>, so it is made of bytes read in
  that pass only.
\<close>

theorem stale_bytes_never_read:
  "main_loop env (st\<lparr>command := b\<rparr>) = main_loop env st
   \<and> (stdin st \<noteq> [] \<and> read_line (NUM - 1) (stdin st) = (l, rest) \<and> c_str l \<noteq> [] \<longrightarrow>
        stdin st = l @ rest \<and> prefix (butlast (c_str l)) l
        \<and> (\<exists>buf. iteration env st =
              (case execute env (butlast (c_str l))
                      (st\<lparr>stdin := rest, command := buf,
                          trace := trace st @ [Printf prompt, Fgets NUM, Printf (echo (butlast (c_str l)))]\<rparr>) of
                 Inl h \<Rightarrow> Inl h
               | Inr (r, st') \<Rightarrow> Inr st')))"
proof (intro conjI impI)
  show "main_loop env (st\<lparr>command := b\<rparr>) = main_loop env st"
    by (rule main_loop_command)
next
  assume a: "stdin st \<noteq> [] \<and> read_line (NUM - 1) (stdin st) = (l, rest) \<and> c_str l \<noteq> []"
  then show "stdin st = l @ rest" using read_line_length by blast
  have "prefix (c_str l) l"
    unfolding c_str_def by (metis prefixI takeWhile_dropWhile_id)
  moreover have "prefix (butlast (c_str l)) (c_str l)"
    by (rule prefixeq_butlast)
  ultimately show "prefix (butlast (c_str l)) l" by (rule prefix_order.trans [rotated])
  from a iteration_line [of st l rest env]
  show "\<exists>buf. iteration env st =
              (case execute env (butlast (c_str l))
                      (st\<lparr>stdin := rest, command := buf,
                          trace := trace st @ [Printf prompt, Fgets NUM, Printf (echo (butlast (c_str l)))]\<rparr>) of
                 Inl h \<Rightarrow> Inl h
               | Inr (r, st') \<Rightarrow> Inr st')"
    by blast
qed


theorem stale_bytes_never_read_witness:
  "stdin \<lparr>stdin = ''ls'' @ [NL], command = ''/bin/a-long-command'' @ [NUL], trace = []\<rparr> \<noteq> []
   \<and> read_line (NUM - 1) (stdin \<lparr>stdin = ''ls'' @ [NL], command = ''/bin/a-long-command'' @ [NUL], trace = []\<rparr>)
       = (''ls'' @ [NL], [])
   \<and> c_str (''ls'' @ [NL]) \<noteq> []
   \<and> main_loop \<lparr>fork_ret = (\<lambda>_. 0), exec_fails = (\<lambda>_ _. False), wait_ret = (\<lambda>_ _. 0)\<rparr>
        \<lparr>stdin = ''ls'' @ [NL], command = ''/bin/a-long-command'' @ [NUL], trace = []\<rparr>
      = main_loop \<lparr>fork_ret = (\<lambda>_. 0), exec_fails = (\<lambda>_ _. False), wait_ret = (\<lambda>_ _. 0)\<rparr>
        \<lparr>stdin = ''ls'' @ [NL], command = [], trace = []\<rparr>
   \<and> iteration \<lparr>fork_ret = (\<lambda>_. 0), exec_fails = (\<lambda>_ _. False), wait_ret = (\<lambda>_ _. 0)\<rparr>
        \<lparr>stdin = ''ls'' @ [NL], command = ''/bin/a-long-command'' @ [NUL], trace = []\<rparr>
      = Inl (Replaced ''ls'',
             \<lparr>stdin = [], command = ''ls'' @ [NUL, NUL] @ ''/a-long-command'' @ [NUL],
              trace = [Printf prompt, Fgets NUM, Printf (echo ''ls''), Fork, Exec ''ls'' [''ls'']]\<rparr>)"
proof -
  let ?st = "\<lparr>stdin = ''ls'' @ [NL], command = ''/bin/a-long-command'' @ [NUL], trace = []\<rparr>"
  let ?env = "\<lparr>fork_ret = (\<lambda>_. 0), exec_fails = (\<lambda>_ _. False), wait_ret = (\<lambda>_ _. 0)\<rparr>"
  have h1: "stdin ?st \<noteq> []" by simp
  have h2: "read_line (NUM - 1) (stdin ?st) = (''ls'' @ [NL], [])"
    using read_line_terminated [of "''ls''" 1023 "[]"] by (simp add: NUM_def NL_def)
  have cs: "c_str (''ls'' @ [NL]) = ''ls'' @ [NL]"
    by (rule c_str_no_NUL) (simp add: NUL_def NL_def)
  then have h3: "c_str (''ls'' @ [NL]) \<noteq> []" by simp
  from stale_bytes_never_read [where env = ?env and st = ?st and b = "[]" and l = "''ls'' @ [NL]" and rest = "[]"] h1 h2 h3
  obtain buf where m: "main_loop ?env (?st\<lparr>command := []\<rparr>) = main_loop ?env ?st"
    and it: "iteration ?env ?st =
              (case execute ?env (butlast (c_str (''ls'' @ [NL])))
                      (?st\<lparr>stdin := [], command := buf,
                          trace := trace ?st @ [Printf prompt, Fgets NUM,
                                     Printf (echo (butlast (c_str (''ls'' @ [NL]))))]\<rparr>) of
                 Inl h \<Rightarrow> Inl h
               | Inr (r, st') \<Rightarrow> Inr st')"
    by blast
  have it': "iteration ?env ?st = Inl (Replaced ''ls'',
             \<lparr>stdin = [], command = ''ls'' @ [NUL, NUL] @ ''/a-long-command'' @ [NUL],
              trace = [Printf prompt, Fgets NUM, Printf (echo ''ls''), Fork, Exec ''ls'' [''ls'']]\<rparr>)"
    using iteration_child [of ?st "''ls'' @ [NL]" "[]" ?env, OF h1 h2 h3] cs
    by (simp add: strlen_def)
  from m h1 h2 h3 it' show ?thesis by simp
qed

subsection \<open>What is printed\<close>

text \<open>
  C10. Every run of \<open>main\<close> starts with the call that sets standard output unbuffered,
  then prints the banner \<open>Running Shell...\<close> followed by a newline, then the first prompt
  \<open>~ # \<close>. The banner is printed exactly once in the whole run. In every pass that reads
  a line, the echo that follows the prompt and the read is a newline, the text
  \<open> Running command: \<close>, the command, and a newline.
\<close>

theorem banner_and_echo:
  "prefix [Setvbuf_IONBF, Printf (''Running Shell...'' @ [CHR 0x0A]), Printf ''~ # '']
     (snd (main env input garbage))
   \<and> length (filter (\<lambda>e. e = Printf (''Running Shell...'' @ [CHR 0x0A])) (snd (main env input garbage))) = 1
   \<and> (stdin st \<noteq> [] \<and> read_line (NUM - 1) (stdin st) = (l, rest) \<and> c_str l \<noteq> [] \<longrightarrow>
        prefix (trace st @ [Printf ''~ # '', Fgets 1024,
                  Printf ([CHR 0x0A] @ '' Running command: '' @ butlast (c_str l) @ [CHR 0x0A])])
          (snd (main_loop env st)))"
proof (intro conjI impI)
  let ?st2 = "\<lparr>stdin = input, command = garbage, trace = [Setvbuf_IONBF, Printf banner]\<rparr>"
  have m: "main env input garbage = main_loop env ?st2"
    by (simp add: main_def Let_def emit_def)
  from main_loop_prompt_first [of ?st2 env]
  show "prefix [Setvbuf_IONBF, Printf (''Running Shell...'' @ [CHR 0x0A]), Printf ''~ # '']
          (snd (main env input garbage))"
    by (simp add: m banner_def prompt_def NL_def)
  from main_loop_no_banner [of env ?st2]
  show "length (filter (\<lambda>e. e = Printf (''Running Shell...'' @ [CHR 0x0A])) (snd (main env input garbage))) = 1"
    by (simp add: m banner_def NL_def)
next
  assume "stdin st \<noteq> [] \<and> read_line (NUM - 1) (stdin st) = (l, rest) \<and> c_str l \<noteq> []"
  then have "prefix (trace st @ [Printf prompt, Fgets NUM, Printf (echo (butlast (c_str l))), Fork])
               (snd (main_loop env st))"
    using main_loop_line_prefix by blast
  then have "prefix ((trace st @ [Printf prompt, Fgets NUM, Printf (echo (butlast (c_str l)))]) @ [Fork])
               (snd (main_loop env st))"
    by simp
  then have "prefix (trace st @ [Printf prompt, Fgets NUM, Printf (echo (butlast (c_str l)))])
               (snd (main_loop env st))"
    by (rule append_prefixD)
  then show "prefix (trace st @ [Printf ''~ # '', Fgets 1024,
                  Printf ([CHR 0x0A] @ '' Running command: '' @ butlast (c_str l) @ [CHR 0x0A])])
          (snd (main_loop env st))"
    by (simp add: prompt_def echo_def NUM_def NL_def)
qed

theorem banner_and_echo_witness:
  "stdin \<lparr>stdin = ''/bin/true'' @ [NL], command = [], trace = []\<rparr> \<noteq> []
   \<and> read_line (NUM - 1) (stdin \<lparr>stdin = ''/bin/true'' @ [NL], command = [], trace = []\<rparr>)
       = (''/bin/true'' @ [NL], [])
   \<and> c_str (''/bin/true'' @ [NL]) \<noteq> []
   \<and> prefix [Printf ''~ # '', Fgets 1024,
              Printf ([CHR 0x0A] @ '' Running command: /bin/true'' @ [CHR 0x0A])]
        (snd (main_loop \<lparr>fork_ret = (\<lambda>_. 7), exec_fails = (\<lambda>_ _. False), wait_ret = (\<lambda>_ _. 0)\<rparr>
                \<lparr>stdin = ''/bin/true'' @ [NL], command = [], trace = []\<rparr>))"
proof -
  let ?st = "\<lparr>stdin = ''/bin/true'' @ [NL], command = [], trace = []\<rparr>"
  let ?env = "\<lparr>fork_ret = (\<lambda>_. 7), exec_fails = (\<lambda>_ _. False), wait_ret = (\<lambda>_ _. 0)\<rparr>"
  have h1: "stdin ?st \<noteq> []" by simp
  have h2: "read_line (NUM - 1) (stdin ?st) = (''/bin/true'' @ [NL], [])"
    using read_line_terminated [of "''/bin/true''" 1023 "[]"] by (simp add: NUM_def NL_def)
  have cs: "c_str (''/bin/true'' @ [NL]) = ''/bin/true'' @ [NL]"
    by (rule c_str_no_NUL) (simp add: NUL_def NL_def)
  then have h3: "c_str (''/bin/true'' @ [NL]) \<noteq> []" by simp
  from banner_and_echo [of ?env "[]" "[]" ?st "''/bin/true'' @ [NL]" "[]"] h1 h2 h3 cs
  show ?thesis by simp
qed

subsection \<open>End of input\<close>

text \<open>
  C1, at the failing input. On empty input the first \<open>fgets\<close> returns the null pointer
  and the next statement, \<open>command[strlen(cmd) - 1] = '\0'\<close>, takes \<open>strlen\<close> of it: the
  run ends in a null dereference right after the first prompt. The same happens when the
  input ends after a command: one line \<open>/bin/true\<close> is run, the second prompt is
  printed, and the second \<open>fgets\<close> leads to the fault. The loop has no way out but a
  fault (or, in the child, \<open>exit\<close> and \<open>exec\<close>): by \<open>main_loop_parent_faults\<close> the
  run of the parent ends in a fault on every input.
\<close>

theorem end_of_stream_faults:
  "main env [] garbage
     = (Fault NullDeref, [Setvbuf_IONBF, Printf banner, Printf prompt, Fgets NUM])
   \<and> main \<lparr>fork_ret = (\<lambda>_. 7), exec_fails = (\<lambda>_ _. False), wait_ret = (\<lambda>_ _. 0)\<rparr>
        (''/bin/true'' @ [NL]) garbage
     = (Fault NullDeref, [Setvbuf_IONBF, Printf banner,
          Printf prompt, Fgets NUM, Printf (echo ''/bin/true''), Fork, Wait 7,
          Printf prompt, Fgets NUM])"
proof
  show "main env [] garbage = (Fault NullDeref, [Setvbuf_IONBF, Printf banner, Printf prompt, Fgets NUM])"
    by (simp add: main_def Let_def emit_def main_loop_eof)
next
  let ?env = "\<lparr>fork_ret = (\<lambda>_. 7), exec_fails = (\<lambda>_ _. False), wait_ret = (\<lambda>_ _. 0)\<rparr>"
  let ?st = "\<lparr>stdin = ''/bin/true'' @ [NL], command = garbage, trace = [Setvbuf_IONBF, Printf banner]\<rparr>"
  have h1: "stdin ?st \<noteq> []" by simp
  have h2: "read_line (NUM - 1) (stdin ?st) = (''/bin/true'' @ [NL], [])"
    using read_line_terminated [of "''/bin/true''" 1023 "[]"] by (simp add: NUM_def NL_def)
  have cs: "c_str (''/bin/true'' @ [NL]) = ''/bin/true'' @ [NL]"
    by (rule c_str_no_NUL) (simp add: NUL_def NL_def)
  then have h3: "c_str (''/bin/true'' @ [NL]) \<noteq> []" by simp
  have h4: "0 < fork_ret ?env (trace ?st @ [Printf prompt, Fgets NUM,
                 Printf (echo (butlast (c_str (''/bin/true'' @ [NL]))))])" by simp
  show "main ?env (''/bin/true'' @ [NL]) garbage
     = (Fault NullDeref, [Setvbuf_IONBF, Printf banner,
          Printf prompt, Fgets NUM, Printf (echo ''/bin/true''), Fork, Wait 7,
          Printf prompt, Fgets NUM])"
    using main_loop_parent [of ?st "''/bin/true'' @ [NL]" "[]" ?env, OF h1 h2 h3 h4] cs
    by (simp add: main_def Let_def emit_def main_loop_eof)
qed

subsection \<open>The last byte of a line\<close>

text \<open>
  C3, at the failing inputs. \<open>command[strlen(cmd) - 1] = '\0'\<close> overwrites the last byte
  read whatever it is. A line of 1023 bytes \<open>a\<close> fills the buffer without a newline: the
  command echoed and run has 1022 bytes, the last \<open>a\<close> is lost (and the newline that
  follows is read as a second, empty command). A last line \<open>ab\<close> that ends with the
  input and has no newline is echoed and run as \<open>a\<close>.
\<close>

theorem last_byte_always_removed:
  "main \<lparr>fork_ret = (\<lambda>_. 7), exec_fails = (\<lambda>_ _. False), wait_ret = (\<lambda>_ _. 0)\<rparr>
        (replicate 1023 (CHR ''a'') @ [NL]) garbage
     = (Fault NullDeref, [Setvbuf_IONBF, Printf banner,
          Printf prompt, Fgets NUM, Printf (echo (replicate 1022 (CHR ''a''))), Fork, Wait 7,
          Printf prompt, Fgets NUM, Printf (echo []), Fork, Wait 7,
          Printf prompt, Fgets NUM])
   \<and> main \<lparr>fork_ret = (\<lambda>_. 7), exec_fails = (\<lambda>_ _. False), wait_ret = (\<lambda>_ _. 0)\<rparr>
        ''ab'' garbage
     = (Fault NullDeref, [Setvbuf_IONBF, Printf banner,
          Printf prompt, Fgets NUM, Printf (echo ''a''), Fork, Wait 7,
          Printf prompt, Fgets NUM])"
proof
  let ?env = "\<lparr>fork_ret = (\<lambda>_. 7), exec_fails = (\<lambda>_ _. False), wait_ret = (\<lambda>_ _. 0)\<rparr>"
  let ?a = "replicate 1023 (CHR ''a'')"
  let ?st = "\<lparr>stdin = ?a @ [NL], command = garbage, trace = [Setvbuf_IONBF, Printf banner]\<rparr>"
  let ?T = "[Setvbuf_IONBF, Printf banner, Printf prompt, Fgets NUM, Printf (echo (replicate 1022 (CHR ''a''))),
             Fork, Wait 7]"
  let ?st' = "\<lparr>stdin = [NL], command = [], trace = ?T\<rparr>"
  have h1: "stdin ?st \<noteq> []" by simp
  have h2: "read_line (NUM - 1) (stdin ?st) = (?a, [NL])"
    using read_line_full [of ?a "[NL]"] by (simp add: NUM_def NL_def)
  have cs: "c_str ?a = ?a"
    by (rule c_str_no_NUL) (simp add: NUL_def)
  have bl: "butlast ?a = replicate 1022 (CHR ''a'')"
    using butlast_replicate_Suc [of 1022 "CHR ''a''"] by simp
  have h3: "c_str ?a \<noteq> []" unfolding cs by simp
  have h4: "0 < fork_ret ?env (trace ?st @ [Printf prompt, Fgets NUM, Printf (echo (butlast (c_str ?a)))])"
    by simp
  have s1: "main_loop ?env ?st = main_loop ?env ?st'"
    using main_loop_parent [of ?st ?a "[NL]" ?env, OF h1 h2 h3 h4] by (simp add: cs bl)
  have g1: "stdin ?st' \<noteq> []" by simp
  have g2: "read_line (NUM - 1) (stdin ?st') = ([NL], [])"
    using read_line_terminated [of "[]" 1023 "[]"] by (simp add: NUM_def)
  have cs2: "c_str [NL] = [NL]"
    by (rule c_str_no_NUL) (simp add: NUL_def NL_def)
  have g3: "c_str [NL] \<noteq> []" unfolding cs2 by simp
  have g4: "0 < fork_ret ?env (trace ?st' @ [Printf prompt, Fgets NUM, Printf (echo (butlast (c_str [NL])))])"
    by simp
  have s2: "main_loop ?env ?st' = main_loop ?env
              \<lparr>stdin = [], command = [], trace = ?T @ [Printf prompt, Fgets NUM, Printf (echo []), Fork, Wait 7]\<rparr>"
    using main_loop_parent [of ?st' "[NL]" "[]" ?env, OF g1 g2 g3 g4] by (simp add: cs2)
  show "main ?env (?a @ [NL]) garbage
     = (Fault NullDeref, [Setvbuf_IONBF, Printf banner,
          Printf prompt, Fgets NUM, Printf (echo (replicate 1022 (CHR ''a''))), Fork, Wait 7,
          Printf prompt, Fgets NUM, Printf (echo []), Fork, Wait 7,
          Printf prompt, Fgets NUM])"
    unfolding main_def Let_def emit_def using s1 s2 by (simp add: main_loop_eof)
next
  let ?env = "\<lparr>fork_ret = (\<lambda>_. 7), exec_fails = (\<lambda>_ _. False), wait_ret = (\<lambda>_ _. 0)\<rparr>"
  let ?st = "\<lparr>stdin = ''ab'', command = garbage, trace = [Setvbuf_IONBF, Printf banner]\<rparr>"
  have h1: "stdin ?st \<noteq> []" by simp
  have h2: "read_line (NUM - 1) (stdin ?st) = (''ab'', [])"
    using read_line_last [of "''ab''" 1023] by (simp add: NUM_def NL_def)
  have cs: "c_str ''ab'' = ''ab''"
    by (rule c_str_no_NUL) (simp add: NUL_def)
  have h3: "c_str ''ab'' \<noteq> []" unfolding cs by simp
  have h4: "0 < fork_ret ?env (trace ?st @ [Printf prompt, Fgets NUM, Printf (echo (butlast (c_str ''ab'')))])"
    by simp
  show "main ?env ''ab'' garbage
     = (Fault NullDeref, [Setvbuf_IONBF, Printf banner,
          Printf prompt, Fgets NUM, Printf (echo ''a''), Fork, Wait 7,
          Printf prompt, Fgets NUM])"
    using main_loop_parent [of ?st "''ab''" "[]" ?env, OF h1 h2 h3 h4] cs
    by (simp add: main_def Let_def emit_def main_loop_eof)
qed

end
